theory Spec2Isabelle
  imports Main
begin

section \<open>Exceptions and coroutine outcomes\<close>

text \<open>
  The collaborators of the bridge (the SLIM session, the anyio memory streams, the
  pydantic parser, the SLIM service) raise Python exceptions. The source looks at two
  things only: whether the exception is an instance of \<open>Exception\<close> (every
  handler is \<open>except Exception\<close>) and its text \<open>str(exc)\<close>. An exception
  is therefore modelled by its class side and its text. \<open>CancelledError\<close> stands for
  the exceptions that derive from \<open>BaseException\<close> but not from \<open>Exception\<close>;
  asyncio delivers it at an \<open>await\<close> when the task is cancelled.
\<close>

datatype py_exc = Exception string | CancelledError

text \<open>
  \<open>TerminateTaskGroup\<close> is the class declared inside \<open>create_mcp_streams\<close>
  (mcp_client.py line 88, mcp_server.py line 45). No collaborator can raise it, so it is
  kept apart from the collaborators' exceptions.
\<close>

datatype raised = TerminateTaskGroup | Propagated py_exc

text \<open>
  How a coroutine stands once the environment's finite script of answers is used up:
  it has returned, it has raised, or it is parked in an \<open>await\<close> that has not been
  answered yet.
\<close>

datatype outcome = Returned | Raises raised | Suspended

section \<open>Substring test\<close>

text \<open>Python's \<open>s.startswith(p)\<close> and \<open>sub in s\<close> on \<open>str\<close>.\<close>

fun startswith :: "string \<Rightarrow> string \<Rightarrow> bool" where
  "startswith s [] = True"
| "startswith [] (p # ps) = False"
| "startswith (c # cs) (p # ps) = (c = p \<and> startswith cs ps)"

fun str_contains :: "string \<Rightarrow> string \<Rightarrow> bool" where
  "str_contains sub [] = (sub = [])"
| "str_contains sub (c # cs) = (startswith (c # cs) sub \<or> str_contains sub cs)"

section \<open>The inbound pump: \<open>slim_reader\<close>\<close>

text \<open>
  What the pump puts into the inbound stream is a \<open>JSONRPCMessage | Exception\<close>.
\<close>

datatype 'm item = Message 'm | Error py_exc

text \<open>
  The observable actions of the pump, in the order they happen: an item accepted by
  \<open>read_stream_writer.send\<close>, a call of \<open>logger.error\<close>, and
  \<open>read_stream_writer.aclose()\<close>.
\<close>

datatype 'm reader_event = Sent "'m item" | Logged_error | Aclosed

text \<open>
  One answer of \<open>session.get_message_async(timeout=None)\<close>: a message with its
  decoded payload, or an exception.
\<close>

datatype recv = Received string | Recv_raises py_exc

text \<open>
  The \<open>except Exception as exc\<close> block of the loop (mcp_client.py lines 105-111,
  mcp_server.py lines 62-71). \<open>marker\<close> is the string tested against
  \<open>str(exc)\<close>; \<open>send k\<close> is the answer of the \<open>k\<close>-th call of
  \<open>read_stream_writer.send\<close> (\<open>None\<close>: the item was accepted, \<open>Some e\<close>:
  the call raised \<open>e\<close>). An exception that is not an \<open>Exception\<close> is not caught.
  The result \<open>Returned\<close> is the \<open>break\<close>.
\<close>

fun on_exception ::
  "string \<Rightarrow> (nat \<Rightarrow> py_exc option) \<Rightarrow> nat \<Rightarrow> py_exc \<Rightarrow> 'm reader_event list \<times> outcome" where
  "on_exception marker send k CancelledError = ([], Raises (Propagated CancelledError))"
| "on_exception marker send k (Exception text) =
     (if str_contains marker text then ([], Raises TerminateTaskGroup)
      else (case send k of
              None \<Rightarrow> ([Logged_error, Sent (Error (Exception text))], Returned)
            | Some e \<Rightarrow> ([Logged_error], Raises (Propagated e))))"

text \<open>
  The \<open>while True\<close> loop. \<open>validate payload\<close> is the synchronous part of the
  \<open>try\<close> body between the receive and the send (the debug log,
  \<open>JSONRPCMessage.model_validate_json\<close>): \<open>Inr m\<close> is the parsed message,
  \<open>Inl text\<close> an \<open>Exception\<close> with that text. The list holds the answers of the
  successive \<open>get_message_async\<close> calls; when it is used up the pump is parked in
  the next receive.
\<close>

fun reader_loop ::
  "string \<Rightarrow> (string \<Rightarrow> string + 'm) \<Rightarrow> (nat \<Rightarrow> py_exc option) \<Rightarrow> nat \<Rightarrow> recv list
     \<Rightarrow> 'm reader_event list \<times> outcome" where
  "reader_loop marker validate send k [] = ([], Suspended)"
| "reader_loop marker validate send k (Recv_raises exc # rest) = on_exception marker send k exc"
| "reader_loop marker validate send k (Received payload # rest) =
     (case validate payload of
        Inl text \<Rightarrow> on_exception marker send k (Exception text)
      | Inr message \<Rightarrow>
          (case send k of
             Some exc \<Rightarrow> on_exception marker send (Suc k) exc
           | None \<Rightarrow>
               (case reader_loop marker validate send (Suc k) rest of
                  (evs, out) \<Rightarrow> (Sent (Message message) # evs, out))))"

text \<open>
  The whole coroutine: the loop inside \<open>try\<close>, and the \<open>finally\<close> block that
  closes the producer side once the loop is left, by \<open>break\<close> or by an exception.
\<close>

definition slim_reader ::
  "string \<Rightarrow> (string \<Rightarrow> string + 'm) \<Rightarrow> (nat \<Rightarrow> py_exc option) \<Rightarrow> recv list
     \<Rightarrow> 'm reader_event list \<times> outcome" where
  "slim_reader marker validate send recvs =
     (case reader_loop marker validate send 0 recvs of
        (evs, out) \<Rightarrow> if out = Suspended then (evs, out) else (evs @ [Aclosed], out))"

text \<open>The two copies differ in the marker (mcp_client.py line 106, mcp_server.py line 66).\<close>

definition client_slim_reader ::
  "(string \<Rightarrow> string + 'm) \<Rightarrow> (nat \<Rightarrow> py_exc option) \<Rightarrow> recv list \<Rightarrow> 'm reader_event list \<times> outcome" where
  "client_slim_reader = slim_reader ''session channel closed''"

definition server_slim_reader ::
  "(string \<Rightarrow> string + 'm) \<Rightarrow> (nat \<Rightarrow> py_exc option) \<Rightarrow> recv list \<Rightarrow> 'm reader_event list \<times> outcome" where
  "server_slim_reader = slim_reader ''session closed''"

text \<open>
  The \<open>except* TerminateTaskGroup: pass\<close> clause around the task group
  (mcp_client.py lines 142-143, mcp_server.py lines 104-105): of the exceptions the group
  re-raises, those of class \<open>TerminateTaskGroup\<close> are handled, the others go on to
  the caller of the bridge.
\<close>

definition except_star_TerminateTaskGroup :: "raised list \<Rightarrow> raised list" where
  "except_star_TerminateTaskGroup excs = filter (\<lambda>r. r \<noteq> TerminateTaskGroup) excs"

section \<open>The outbound pump: \<open>slim_writer\<close>\<close>

text \<open>
  A call that hands back an awaitable completion (\<open>session.publish_async\<close>,
  \<open>slim_app.delete_session_async\<close>): the call itself raises, or it returns a
  completion whose \<open>wait_async()\<close> returns (\<open>None\<close>) or raises.
\<close>

datatype completion_call = Call_raises py_exc | Completion "py_exc option"

text \<open>
  The observable actions of the pump: a message taken from \<open>write_stream_reader\<close>
  by the \<open>async for\<close>, a call of \<open>publish_async\<close> with its payload, a
  \<open>completion.wait_async()\<close> that returned, a call of \<open>logger.error\<close>, and
  \<open>write_stream_reader.aclose()\<close>.
\<close>

datatype 'm writer_event =
  Took 'm | Published string | Acknowledged | Logged_send_error | Reader_aclosed

text \<open>
  What the outbound stream does once the submitted messages are used up: its producer
  has closed it, or it is still open and the pump is parked in the \<open>async for\<close>.
\<close>

datatype stream_end = End_of_stream | Still_open

text \<open>The \<open>except Exception\<close> block: log and re-raise (lines 125-127 and 85-87).\<close>

fun on_send_exception :: "py_exc \<Rightarrow> 'm writer_event list \<times> outcome" where
  "on_send_exception (Exception text) = ([Logged_send_error], Raises (Propagated (Exception text)))"
| "on_send_exception CancelledError = ([], Raises (Propagated CancelledError))"

text \<open>
  The \<open>async for\<close> loop. \<open>dump\<close> is \<open>model_dump_json(by_alias=True,
  exclude_none=True)\<close> followed by \<open>encode()\<close>; \<open>publish k payload\<close> is the
  session's answer to the \<open>k\<close>-th call of \<open>publish_async\<close>.
\<close>

fun writer_loop ::
  "('m \<Rightarrow> string) \<Rightarrow> (nat \<Rightarrow> string \<Rightarrow> completion_call) \<Rightarrow> stream_end \<Rightarrow> nat \<Rightarrow> 'm list
     \<Rightarrow> 'm writer_event list \<times> outcome" where
  "writer_loop dump publish fin k [] =
     ([], case fin of End_of_stream \<Rightarrow> Returned | Still_open \<Rightarrow> Suspended)"
| "writer_loop dump publish fin k (message # rest) =
     (case publish k (dump message) of
        Call_raises exc \<Rightarrow>
          (case on_send_exception exc of
             (evs, out) \<Rightarrow> (Took message # Published (dump message) # evs, out))
      | Completion (Some exc) \<Rightarrow>
          (case on_send_exception exc of
             (evs, out) \<Rightarrow> (Took message # Published (dump message) # evs, out))
      | Completion None \<Rightarrow>
          (case writer_loop dump publish fin (Suc k) rest of
             (evs, out) \<Rightarrow> (Took message # Published (dump message) # Acknowledged # evs, out)))"

text \<open>
  The whole coroutine, with its \<open>finally\<close> block. The client's and the server's
  copy are the same text (mcp_client.py lines 115-129, mcp_server.py lines 75-89).
\<close>

definition slim_writer ::
  "('m \<Rightarrow> string) \<Rightarrow> (nat \<Rightarrow> string \<Rightarrow> completion_call) \<Rightarrow> stream_end \<Rightarrow> 'm list
     \<Rightarrow> 'm writer_event list \<times> outcome" where
  "slim_writer dump publish fin messages =
     (case writer_loop dump publish fin 0 messages of
        (evs, out) \<Rightarrow> if out = Suspended then (evs, out) else (evs @ [Reader_aclosed], out))"

text \<open>The payloads handed to \<open>publish_async\<close>, in call order.\<close>

fun published :: "'m writer_event list \<Rightarrow> string list" where
  "published [] = []"
| "published (Published payload # evs) = payload # published evs"
| "published (ev # evs) = published evs"

section \<open>The client's session scope: \<open>create_slim_session\<close>\<close>

datatype 's session_event =
  Create_session_called | Establishment_awaited | Yielded 's
  | Delete_session_called 's | Deletion_awaited

text \<open>
  \<open>create_session_async\<close> raises or returns the session with its establishment
  completion; \<open>body s\<close> is what the \<open>async with\<close> block of the caller did with the
  session (\<open>None\<close>: it returned, \<open>Some e\<close>: it raised \<open>e\<close>);
  \<open>delete_session_async s\<close> is the answer of the deletion. An event records that the
  call was made. After the \<open>finally\<close> block has run to its end the exception of the
  body, if any, goes on to the caller; an exception raised inside the \<open>finally\<close>
  block replaces it.
\<close>

definition create_slim_session ::
  "(py_exc + 's \<times> py_exc option) \<Rightarrow> ('s \<Rightarrow> py_exc option) \<Rightarrow> ('s \<Rightarrow> completion_call)
     \<Rightarrow> 's session_event list \<times> outcome" where
  "create_slim_session create_session_async body delete_session_async =
     (case create_session_async of
        Inl exc \<Rightarrow> ([Create_session_called], Raises (Propagated exc))
      | Inr (session, Some exc) \<Rightarrow>
          ([Create_session_called, Establishment_awaited], Raises (Propagated exc))
      | Inr (session, None) \<Rightarrow>
          (case delete_session_async session of
             Call_raises exc \<Rightarrow>
               ([Create_session_called, Establishment_awaited, Yielded session,
                 Delete_session_called session], Raises (Propagated exc))
           | Completion (Some exc) \<Rightarrow>
               ([Create_session_called, Establishment_awaited, Yielded session,
                 Delete_session_called session, Deletion_awaited], Raises (Propagated exc))
           | Completion None \<Rightarrow>
               ([Create_session_called, Establishment_awaited, Yielded session,
                 Delete_session_called session, Deletion_awaited],
                case body session of None \<Rightarrow> Returned | Some exc \<Rightarrow> Raises (Propagated exc))))"

section \<open>The server's accept loop: \<open>run_mcp_server\<close>\<close>

text \<open>One answer of \<open>slim_app.listen_for_session_async\<close>.\<close>

datatype 's accept_result = Session 's | Listen_raises py_exc

datatype 's server_event = Logged_new_session 's | Task_created 's | Logged_accept_error string

text \<open>
  The \<open>while True\<close> loop (mcp_server.py lines 150-179). An \<open>Exception\<close> of the
  listen call is logged and the loop goes on; anything else leaves the loop. The loop has
  no \<open>break\<close> and no \<open>return\<close>. When the answers are used up the loop is parked
  in \<open>listen_for_session_async\<close>.
\<close>

fun accept_loop :: "'s accept_result list \<Rightarrow> 's server_event list \<times> outcome" where
  "accept_loop [] = ([], Suspended)"
| "accept_loop (Session s # rest) =
     (case accept_loop rest of (evs, out) \<Rightarrow> (Logged_new_session s # Task_created s # evs, out))"
| "accept_loop (Listen_raises (Exception text) # rest) =
     (case accept_loop rest of (evs, out) \<Rightarrow> (Logged_accept_error text # evs, out))"
| "accept_loop (Listen_raises CancelledError # rest) = ([], Raises (Propagated CancelledError))"

text \<open>
  \<open>handle_session\<close> (lines 157-172): the argument is how the
  \<open>async with create_mcp_streams(session)\<close> block around \<open>mcp_app.run\<close> ended.
  \<open>except Exception\<close> logs the text and the coroutine returns.
  \<open>TerminateTaskGroup\<close> is a subclass of \<open>Exception\<close> with an empty text.
\<close>

datatype task_event = Logged_session_error string

fun handle_session :: "outcome \<Rightarrow> task_event list \<times> outcome" where
  "handle_session (Raises (Propagated (Exception text))) = ([Logged_session_error text], Returned)"
| "handle_session (Raises TerminateTaskGroup) = ([Logged_session_error []], Returned)"
| "handle_session (Raises (Propagated CancelledError)) = ([], Raises (Propagated CancelledError))"
| "handle_session Returned = ([], Returned)"
| "handle_session Suspended = ([], Suspended)"

text \<open>The sessions for which \<open>asyncio.create_task(handle_session())\<close> was called.\<close>

fun spawned :: "'s server_event list \<Rightarrow> 's list" where
  "spawned [] = []"
| "spawned (Task_created s # evs) = s # spawned evs"
| "spawned (ev # evs) = spawned evs"

text \<open>
  The server: the events of the loop, the tasks it created (each with what it logged and
  how it ended, \<open>body s\<close> being the run of the protocol handler over the bridge of
  session \<open>s\<close>), and how the loop stands. The loop never awaits a task it created.
\<close>

definition run_mcp_server ::
  "'s accept_result list \<Rightarrow> ('s \<Rightarrow> outcome)
     \<Rightarrow> 's server_event list \<times> (task_event list \<times> outcome) list \<times> outcome" where
  "run_mcp_server accepts body =
     (case accept_loop accepts of
        (evs, out) \<Rightarrow> (evs, map (\<lambda>s. handle_session (body s)) (spawned evs), out))"

section \<open>\<open>create_local_app\<close>\<close>

text \<open>
  The \<open>try\<close>/\<open>except\<close> around \<open>service.connect_async\<close> (helpers.py lines
  97-102): the connection id on success; an \<open>Exception\<close> whose text does not contain
  \<open>client already connected\<close> is re-raised, one whose text contains it leaves
  \<open>connection_id\<close> at \<open>None\<close>.
\<close>

fun connect_step :: "py_exc + 'conn \<Rightarrow> py_exc + 'conn option" where
  "connect_step (Inr connection_id) = Inr (Some connection_id)"
| "connect_step (Inl (Exception text)) =
     (if \<not> str_contains ''client already connected'' text then Inl (Exception text)
      else Inr None)"
| "connect_step (Inl CancelledError) = Inl CancelledError"

text \<open>
  \<open>create_local_app\<close> (helpers.py lines 91-116). \<open>connect_async\<close>,
  \<open>create_app_with_secret\<close> and \<open>subscribe_async\<close> are the service's answers;
  the result is the returned pair or the exception that leaves the function.
\<close>

definition create_local_app ::
  "'cfg option \<Rightarrow> ('cfg \<Rightarrow> py_exc + 'conn) \<Rightarrow> (py_exc + 'app) \<Rightarrow> ('app \<Rightarrow> 'conn \<Rightarrow> py_exc option)
     \<Rightarrow> py_exc + 'app \<times> 'conn option" where
  "create_local_app slim_client_config connect_async create_app_with_secret subscribe_async =
     (case (case slim_client_config of
              None \<Rightarrow> Inr None
            | Some config \<Rightarrow> connect_step (connect_async config)) of
        Inl exc \<Rightarrow> Inl exc
      | Inr connection_id \<Rightarrow>
          (case create_app_with_secret of
             Inl exc \<Rightarrow> Inl exc
           | Inr local_app \<Rightarrow>
               (case connection_id of
                  None \<Rightarrow> Inr (local_app, None)
                | Some c \<Rightarrow>
                    (case subscribe_async local_app c of
                       Some exc \<Rightarrow> Inl exc
                     | None \<Rightarrow> Inr (local_app, Some c)))))"

section \<open>Concrete collaborators\<close>

text \<open>Concrete collaborators for the examples.\<close>

definition accepting_stream :: "nat \<Rightarrow> py_exc option" where
  "accepting_stream k = None"

definition example_validate :: "string \<Rightarrow> string + string" where
  "example_validate payload =
     (if payload = ''not json'' then Inl ''Invalid JSON: expected value'' else Inr payload)"

definition example_dump :: "string \<Rightarrow> string" where
  "example_dump message = ''{'' @ message @ ''}''"

definition acknowledging_session :: "nat \<Rightarrow> string \<Rightarrow> completion_call" where
  "acknowledging_session k payload = Completion None"

text \<open>A session whose second publish raises.\<close>

definition failing_session :: "nat \<Rightarrow> string \<Rightarrow> completion_call" where
  "failing_session k payload =
     (if k = 1 then Call_raises (Exception ''publish failed'') else Completion None)"

text \<open>A body of the session scope that raises, and a deletion that is acknowledged.\<close>

definition raising_body :: "nat \<Rightarrow> py_exc option" where
  "raising_body session = Some (Exception ''tool call failed'')"

definition acknowledged_deletion :: "nat \<Rightarrow> completion_call" where
  "acknowledged_deletion session = Completion None"

text \<open>Per-session handler runs of which the one for session 3 raises.\<close>

definition example_body :: "nat \<Rightarrow> outcome" where
  "example_body session =
     (if session = 3 then Raises (Propagated (Exception ''handler crashed'')) else Returned)"

text \<open>A service whose connect reports that the client is connected already.\<close>

definition already_connected :: "unit \<Rightarrow> py_exc + nat" where
  "already_connected config = Inl (Exception ''connection error: client already connected'')"

definition subscribing :: "string \<Rightarrow> nat \<Rightarrow> py_exc option" where
  "subscribing local_app connection_id = None"

section \<open>Facts about the substring test\<close>

lemma startswith_iff: "startswith s p \<longleftrightarrow> (\<exists>suf. s = p @ suf)"
  by (induction s p rule: startswith.induct) auto

lemma str_contains_iff: "str_contains sub s \<longleftrightarrow> (\<exists>pre suf. s = pre @ sub @ suf)"
proof (induction s)
  case Nil
  then show ?case by auto
next
  case (Cons c cs)
  show ?case
  proof
    assume "str_contains sub (c # cs)"
    then consider "startswith (c # cs) sub" | "str_contains sub cs" by auto
    then show "\<exists>pre suf. c # cs = pre @ sub @ suf"
    proof cases
      case 1
      then obtain suf where "c # cs = sub @ suf" by (auto simp: startswith_iff)
      then have "c # cs = [] @ sub @ suf" by simp
      then show ?thesis by blast
    next
      case 2
      then obtain pre suf where "cs = pre @ sub @ suf" using Cons.IH by blast
      then have "c # cs = (c # pre) @ sub @ suf" by simp
      then show ?thesis by blast
    qed
  next
    assume "\<exists>pre suf. c # cs = pre @ sub @ suf"
    then obtain pre suf where eq: "c # cs = pre @ sub @ suf" by blast
    show "str_contains sub (c # cs)"
    proof (cases pre)
      case Nil
      with eq have "startswith (c # cs) sub" by (auto simp: startswith_iff)
      then show ?thesis by simp
    next
      case (Cons d pre')
      with eq have "cs = pre' @ sub @ suf" by simp
      then have "str_contains sub cs" using Cons.IH by blast
      then show ?thesis by simp
    qed
  qed
qed

section \<open>Facts about the inbound pump\<close>

text \<open>
  A run of well-formed messages that the stream accepts is forwarded in order, and the
  loop goes on with the rest of the session's answers.
\<close>

lemma reader_loop_forwards:
  "list_all2 (\<lambda>p m. validate p = Inr m) ps ms \<Longrightarrow> (\<forall>i<length ps. send (k + i) = None) \<Longrightarrow>
   reader_loop marker validate send k (map Received ps @ rest) =
     (case reader_loop marker validate send (k + length ps) rest of
        (evs, out) \<Rightarrow> (map (\<lambda>m. Sent (Message m)) ms @ evs, out))"
proof (induction ps ms arbitrary: k rule: list_all2_induct)
  case Nil
  then show ?case by (simp split: prod.splits)
next
  case (Cons p ps m ms)
  have s0: "send k = None" using Cons.prems by (metis add.right_neutral length_Cons zero_less_Suc)
  have "\<forall>i<length ps. send (Suc k + i) = None"
  proof (intro allI impI)
    fix i assume "i < length ps"
    then have "Suc i < length (p # ps)" by simp
    then have "send (k + Suc i) = None" using Cons.prems by blast
    then show "send (Suc k + i) = None" by simp
  qed
  then have IH: "reader_loop marker validate send (Suc k) (map Received ps @ rest) =
     (case reader_loop marker validate send (Suc k + length ps) rest of
        (evs, out) \<Rightarrow> (map (\<lambda>m. Sent (Message m)) ms @ evs, out))"
    by (rule Cons.IH)
  show ?case using Cons.hyps(1) s0 IH by (simp split: prod.splits)
qed

lemma slim_reader_after_prefix:
  assumes "list_all2 (\<lambda>p m. validate p = Inr m) ps ms"
      and "\<forall>i<length ps. send i = None"
  shows "slim_reader marker validate send (map Received ps @ rest) =
     (case reader_loop marker validate send (length ps) rest of
        (evs, out) \<Rightarrow>
          if out = Suspended then (map (\<lambda>m. Sent (Message m)) ms @ evs, out)
          else (map (\<lambda>m. Sent (Message m)) ms @ evs @ [Aclosed], out))"
proof -
  have "\<forall>i<length ps. send (0 + i) = None" using assms(2) by simp
  from reader_loop_forwards [OF assms(1) this, of marker rest]
  show ?thesis by (simp add: slim_reader_def split: prod.splits)
qed

lemma on_exception_no_aclose: "Aclosed \<notin> set (fst (on_exception marker send k exc))"
  by (cases exc) (auto split: option.splits)

lemma on_exception_not_suspended: "snd (on_exception marker send k exc) \<noteq> Suspended"
  by (cases exc) (auto split: option.splits)

lemma reader_loop_no_aclose: "Aclosed \<notin> set (fst (reader_loop marker validate send k recvs))"
proof (induction marker validate send k recvs rule: reader_loop.induct)
  case (1 marker validate send k)
  then show ?case by simp
next
  case (2 marker validate send k exc rest)
  then show ?case by (simp add: on_exception_no_aclose)
next
  case (3 marker validate send k payload rest)
  then show ?case
    by (auto simp: on_exception_no_aclose split: sum.splits option.splits prod.splits)
qed

lemma slim_reader_exit:
  "snd (slim_reader marker validate send recvs) \<noteq> Suspended \<Longrightarrow>
   fst (slim_reader marker validate send recvs) \<noteq> [] \<and>
   last (fst (slim_reader marker validate send recvs)) = Aclosed \<and>
   count_list (fst (slim_reader marker validate send recvs)) Aclosed = 1"
proof -
  assume ex: "snd (slim_reader marker validate send recvs) \<noteq> Suspended"
  obtain evs out where lp: "reader_loop marker validate send 0 recvs = (evs, out)"
    by (cases "reader_loop marker validate send 0 recvs")
  have out: "out \<noteq> Suspended" using ex lp by (auto simp: slim_reader_def split: if_splits)
  have "Aclosed \<notin> set evs" using reader_loop_no_aclose [of marker validate send 0 recvs] lp by simp
  then have "count_list evs Aclosed = 0" by (simp add: count_list_0_iff)
  then show ?thesis using lp out by (simp add: slim_reader_def)
qed

lemma slim_reader_suspended:
  "snd (slim_reader marker validate send recvs) = Suspended \<Longrightarrow>
   Aclosed \<notin> set (fst (slim_reader marker validate send recvs))"
proof -
  assume su: "snd (slim_reader marker validate send recvs) = Suspended"
  obtain evs out where lp: "reader_loop marker validate send 0 recvs = (evs, out)"
    by (cases "reader_loop marker validate send 0 recvs")
  have "Aclosed \<notin> set evs" using reader_loop_no_aclose [of marker validate send 0 recvs] lp by simp
  then show ?thesis using lp su by (auto simp: slim_reader_def split: if_splits)
qed

section \<open>Classification of a receive exception\<close>

text \<open>
  C10. Whether a receive exception is a clean close is decided by substring containment
  on \<open>str(exc)\<close>: the client's pump looks for \<open>session channel closed\<close>, the
  server's for \<open>session closed\<close>. After any run of forwarded messages, an
  \<open>Exception\<close> raised by the receive ends the pump with \<open>TerminateTaskGroup\<close>
  and no error item exactly when its text contains the pump's marker; otherwise it is
  put into the inbound stream as an error item (the stream accepting it). The last
  conjunct says that the test is containment of a contiguous substring.
\<close>

theorem close_classification_by_substring:
  assumes "list_all2 (\<lambda>p m. validate p = Inr m) ps ms"
      and "\<forall>i\<le>length ps. send i = None"
  shows "client_slim_reader validate send (map Received ps @ Recv_raises (Exception text) # rest) =
           (if str_contains ''session channel closed'' text
            then (map (\<lambda>m. Sent (Message m)) ms @ [Aclosed], Raises TerminateTaskGroup)
            else (map (\<lambda>m. Sent (Message m)) ms @
                    [Logged_error, Sent (Error (Exception text)), Aclosed], Returned))
       \<and> server_slim_reader validate send (map Received ps @ Recv_raises (Exception text) # rest) =
           (if str_contains ''session closed'' text
            then (map (\<lambda>m. Sent (Message m)) ms @ [Aclosed], Raises TerminateTaskGroup)
            else (map (\<lambda>m. Sent (Message m)) ms @
                    [Logged_error, Sent (Error (Exception text)), Aclosed], Returned))
       \<and> (str_contains sub text \<longleftrightarrow> (\<exists>pre suf. text = pre @ sub @ suf))"
proof -
  have a: "\<forall>i<length ps. send i = None" and b: "send (length ps) = None"
    using assms(2) by auto
  show ?thesis
    using b
    by (simp add: client_slim_reader_def server_slim_reader_def
        slim_reader_after_prefix [OF assms(1) a] str_contains_iff)
qed

text \<open>
  The text \<open>session closed\<close> is a close for the server's pump and an error item for
  the client's.
\<close>

theorem close_classification_by_substring_witness:
  "list_all2 (\<lambda>p m. example_validate p = Inr m) [''ping''] [''ping'']
   \<and> accepting_stream 0 = None \<and> accepting_stream 1 = None
   \<and> client_slim_reader example_validate accepting_stream
        (map Received [''ping''] @ [Recv_raises (Exception ''session closed'')]) =
      ([Sent (Message ''ping''), Logged_error, Sent (Error (Exception ''session closed'')), Aclosed],
       Returned)
   \<and> server_slim_reader example_validate accepting_stream
        (map Received [''ping''] @ [Recv_raises (Exception ''session closed'')]) =
      ([Sent (Message ''ping''), Aclosed], Raises TerminateTaskGroup)"
proof -
  have h1: "list_all2 (\<lambda>p m. example_validate p = Inr m) [''ping''] [''ping'']"
    by (simp add: example_validate_def)
  have h2: "\<forall>i\<le>length [''ping'']. accepting_stream i = None"
    by (simp add: accepting_stream_def)
  have hs: "accepting_stream 0 = None" "accepting_stream 1 = None" "accepting_stream 2 = None"
    by (simp_all add: accepting_stream_def)
  from close_classification_by_substring [OF h1 h2, of "''session closed''" "[]" "[]"]
  show ?thesis using h1 h2 hs by simp
qed

section \<open>Decode failure\<close>

text \<open>
  What the pumps do on the answers \<open>not json\<close>, \<open>ping\<close>: the first payload does
  not parse, its exception text contains neither marker, the second payload is
  well-formed. Both pumps put the exception into the inbound stream, leave the loop,
  close the stream and return; \<open>ping\<close> is never forwarded.
\<close>

theorem decode_failure_counterexample:
  "example_validate ''not json'' = Inl ''Invalid JSON: expected value''
   \<and> example_validate ''ping'' = Inr ''ping''
   \<and> \<not> str_contains ''session channel closed'' ''Invalid JSON: expected value''
   \<and> \<not> str_contains ''session closed'' ''Invalid JSON: expected value''
   \<and> client_slim_reader example_validate accepting_stream [Received ''not json'', Received ''ping''] =
        ([Logged_error, Sent (Error (Exception ''Invalid JSON: expected value'')), Aclosed], Returned)
   \<and> server_slim_reader example_validate accepting_stream [Received ''not json'', Received ''ping''] =
        ([Logged_error, Sent (Error (Exception ''Invalid JSON: expected value'')), Aclosed], Returned)
   \<and> Sent (Message ''ping'') \<notin> set (fst (client_slim_reader example_validate accepting_stream
        [Received ''not json'', Received ''ping'']))
   \<and> Sent (Message ''ping'') \<notin> set (fst (server_slim_reader example_validate accepting_stream
        [Received ''not json'', Received ''ping'']))"
  by (simp add: client_slim_reader_def server_slim_reader_def slim_reader_def
      example_validate_def accepting_stream_def)

text \<open>
  C1, as amended. After any run of forwarded messages, a payload whose deserialization
  fails with a text that is not classified as session-closed makes the pump log the
  error, put the exception into the inbound stream as an error item (the stream accepting
  it), leave the receive loop, close the producer side and return. Whatever the session
  would deliver afterwards (\<open>rest\<close>) is not received and not forwarded.
\<close>

theorem decode_failure_forwarded_then_pump_stops:
  assumes "list_all2 (\<lambda>p m. validate p = Inr m) ps ms"
      and "\<forall>i\<le>length ps. send i = None"
      and "validate payload = Inl text"
  shows "(\<not> str_contains ''session channel closed'' text \<longrightarrow>
            client_slim_reader validate send (map Received ps @ Received payload # rest) =
              (map (\<lambda>m. Sent (Message m)) ms @
                 [Logged_error, Sent (Error (Exception text)), Aclosed], Returned))
       \<and> (\<not> str_contains ''session closed'' text \<longrightarrow>
            server_slim_reader validate send (map Received ps @ Received payload # rest) =
              (map (\<lambda>m. Sent (Message m)) ms @
                 [Logged_error, Sent (Error (Exception text)), Aclosed], Returned))"
proof -
  have a: "\<forall>i<length ps. send i = None" and b: "send (length ps) = None"
    using assms(2) by auto
  show ?thesis
    using b assms(3)
    by (simp add: client_slim_reader_def server_slim_reader_def
        slim_reader_after_prefix [OF assms(1) a])
qed

theorem decode_failure_forwarded_then_pump_stops_witness:
  "list_all2 (\<lambda>p m. example_validate p = Inr m) [''a'', ''b''] [''a'', ''b'']
   \<and> accepting_stream 0 = None \<and> accepting_stream 1 = None \<and> accepting_stream 2 = None
   \<and> example_validate ''not json'' = Inl ''Invalid JSON: expected value''
   \<and> \<not> str_contains ''session channel closed'' ''Invalid JSON: expected value''
   \<and> \<not> str_contains ''session closed'' ''Invalid JSON: expected value''
   \<and> client_slim_reader example_validate accepting_stream
        (map Received [''a'', ''b''] @ Received ''not json'' # [Received ''c'']) =
      ([Sent (Message ''a''), Sent (Message ''b''), Logged_error,
        Sent (Error (Exception ''Invalid JSON: expected value'')), Aclosed], Returned)
   \<and> server_slim_reader example_validate accepting_stream
        (map Received [''a'', ''b''] @ Received ''not json'' # [Received ''c'']) =
      ([Sent (Message ''a''), Sent (Message ''b''), Logged_error,
        Sent (Error (Exception ''Invalid JSON: expected value'')), Aclosed], Returned)"
proof -
  have h1: "list_all2 (\<lambda>p m. example_validate p = Inr m) [''a'', ''b''] [''a'', ''b'']"
    by (simp add: example_validate_def)
  have h2: "\<forall>i\<le>length [''a'', ''b'']. accepting_stream i = None"
    by (simp add: accepting_stream_def)
  have h3: "example_validate ''not json'' = Inl ''Invalid JSON: expected value''"
    by (simp add: example_validate_def)
  have h4: "\<not> str_contains ''session channel closed'' ''Invalid JSON: expected value''"
    by simp
  have h5: "\<not> str_contains ''session closed'' ''Invalid JSON: expected value''"
    by simp
  have hs: "accepting_stream 0 = None" "accepting_stream 1 = None" "accepting_stream 2 = None"
    by (simp_all add: accepting_stream_def)
  from decode_failure_forwarded_then_pump_stops [OF h1 h2 h3, of "[Received ''c'']"]
  show ?thesis using h1 h2 h3 h4 h5 hs by simp
qed

section \<open>Clean close\<close>

text \<open>
  C5. After any run of forwarded messages, a receive exception whose text contains the
  pump's marker ends the pump: the inbound stream holds the forwarded messages and is
  closed, no error item is ever put into it, and the pump leaves by raising
  \<open>TerminateTaskGroup\<close>. That exception is what aborts the task group of the bridge
  (the shutdown request to the sibling pump), and the bridge's
  \<open>except* TerminateTaskGroup\<close> clause lets nothing of it reach the caller.
\<close>

theorem session_closed_terminates_cleanly:
  assumes "list_all2 (\<lambda>p m. validate p = Inr m) ps ms"
      and "\<forall>i<length ps. send i = None"
  shows "(str_contains ''session channel closed'' text \<longrightarrow>
            client_slim_reader validate send (map Received ps @ Recv_raises (Exception text) # rest) =
              (map (\<lambda>m. Sent (Message m)) ms @ [Aclosed], Raises TerminateTaskGroup)
            \<and> (\<forall>e. Sent (Error e) \<notin> set (fst (client_slim_reader validate send
                  (map Received ps @ Recv_raises (Exception text) # rest)))))
       \<and> (str_contains ''session closed'' text \<longrightarrow>
            server_slim_reader validate send (map Received ps @ Recv_raises (Exception text) # rest) =
              (map (\<lambda>m. Sent (Message m)) ms @ [Aclosed], Raises TerminateTaskGroup)
            \<and> (\<forall>e. Sent (Error e) \<notin> set (fst (server_slim_reader validate send
                  (map Received ps @ Recv_raises (Exception text) # rest)))))
       \<and> except_star_TerminateTaskGroup [TerminateTaskGroup] = []"
  by (auto simp: client_slim_reader_def server_slim_reader_def except_star_TerminateTaskGroup_def
      slim_reader_after_prefix [OF assms])

theorem session_closed_terminates_cleanly_witness:
  "list_all2 (\<lambda>p m. example_validate p = Inr m) [''a''] [''a'']
   \<and> accepting_stream 0 = None
   \<and> str_contains ''session channel closed'' ''receive error: session channel closed''
   \<and> str_contains ''session closed'' ''session closed by peer''
   \<and> client_slim_reader example_validate accepting_stream
        (map Received [''a''] @ Recv_raises (Exception ''receive error: session channel closed'') # []) =
      ([Sent (Message ''a''), Aclosed], Raises TerminateTaskGroup)
   \<and> server_slim_reader example_validate accepting_stream
        (map Received [''a''] @ Recv_raises (Exception ''session closed by peer'') # []) =
      ([Sent (Message ''a''), Aclosed], Raises TerminateTaskGroup)"
proof -
  have h1: "list_all2 (\<lambda>p m. example_validate p = Inr m) [''a''] [''a'']"
    by (simp add: example_validate_def)
  have h2: "\<forall>i<length [''a'']. accepting_stream i = None"
    by (simp add: accepting_stream_def)
  have h3: "str_contains ''session channel closed'' ''receive error: session channel closed''"
    by simp
  have h4: "str_contains ''session closed'' ''session closed by peer''"
    by simp
  from session_closed_terminates_cleanly [OF h1 h2, of "''receive error: session channel closed''" "[]"]
  have c: "client_slim_reader example_validate accepting_stream
        (map Received [''a''] @ Recv_raises (Exception ''receive error: session channel closed'') # []) =
      ([Sent (Message ''a''), Aclosed], Raises TerminateTaskGroup)"
    using h3 by simp
  from session_closed_terminates_cleanly [OF h1 h2, of "''session closed by peer''" "[]"]
  have s: "server_slim_reader example_validate accepting_stream
        (map Received [''a''] @ Recv_raises (Exception ''session closed by peer'') # []) =
      ([Sent (Message ''a''), Aclosed], Raises TerminateTaskGroup)"
    using h4 by simp
  have hs: "accepting_stream 0 = None" "accepting_stream 1 = None" "accepting_stream 2 = None"
    by (simp_all add: accepting_stream_def)
  show ?thesis using h1 h3 h4 c s hs by simp
qed

section \<open>The producer side is closed on every exit\<close>

text \<open>
  C8. Whenever the pump has exited, by returning after the \<open>break\<close> or by raising
  (\<open>TerminateTaskGroup\<close> on a clean close, \<open>CancelledError\<close> on cancellation, the
  exception of a failed send), \<open>read_stream_writer.aclose()\<close> has been called exactly
  once and it is the last thing the pump did. This holds for every script of receive
  answers, every parser and every behaviour of the stream.
\<close>

theorem reader_closes_stream_on_every_exit:
  "(snd (client_slim_reader validate send recvs) \<noteq> Suspended \<longrightarrow>
      fst (client_slim_reader validate send recvs) \<noteq> [] \<and>
      last (fst (client_slim_reader validate send recvs)) = Aclosed \<and>
      count_list (fst (client_slim_reader validate send recvs)) Aclosed = 1)
   \<and> (snd (server_slim_reader validate send recvs) \<noteq> Suspended \<longrightarrow>
      fst (server_slim_reader validate send recvs) \<noteq> [] \<and>
      last (fst (server_slim_reader validate send recvs)) = Aclosed \<and>
      count_list (fst (server_slim_reader validate send recvs)) Aclosed = 1)"
  unfolding client_slim_reader_def server_slim_reader_def
  using slim_reader_exit [of "''session channel closed''" validate send recvs]
    slim_reader_exit [of "''session closed''" validate send recvs]
  by blast

theorem reader_closes_stream_on_every_exit_witness:
  "snd (client_slim_reader example_validate accepting_stream
          [Received ''ping'', Recv_raises CancelledError]) \<noteq> Suspended
   \<and> client_slim_reader example_validate accepting_stream
          [Received ''ping'', Recv_raises CancelledError] =
       ([Sent (Message ''ping''), Aclosed], Raises (Propagated CancelledError))
   \<and> last (fst (client_slim_reader example_validate accepting_stream
          [Received ''ping'', Recv_raises CancelledError])) = Aclosed
   \<and> snd (server_slim_reader example_validate accepting_stream
          [Received ''not json'']) \<noteq> Suspended
   \<and> last (fst (server_slim_reader example_validate accepting_stream
          [Received ''not json''])) = Aclosed"
proof -
  have c: "client_slim_reader example_validate accepting_stream
          [Received ''ping'', Recv_raises CancelledError] =
       ([Sent (Message ''ping''), Aclosed], Raises (Propagated CancelledError))"
    by (simp add: client_slim_reader_def slim_reader_def example_validate_def accepting_stream_def)
  have s: "snd (server_slim_reader example_validate accepting_stream
          [Received ''not json'']) \<noteq> Suspended"
    by (simp add: server_slim_reader_def slim_reader_def example_validate_def accepting_stream_def)
  have c': "snd (client_slim_reader example_validate accepting_stream
          [Received ''ping'', Recv_raises CancelledError]) \<noteq> Suspended"
    using c by simp
  from reader_closes_stream_on_every_exit
    [of example_validate accepting_stream "[Received ''ping'', Recv_raises CancelledError]"]
  have 1: "last (fst (client_slim_reader example_validate accepting_stream
          [Received ''ping'', Recv_raises CancelledError])) = Aclosed"
    using c' by blast
  from reader_closes_stream_on_every_exit
    [of example_validate accepting_stream "[Received ''not json'']"]
  have 2: "last (fst (server_slim_reader example_validate accepting_stream
          [Received ''not json''])) = Aclosed"
    using s by blast
  show ?thesis using c c' s 1 2 by blast
qed

section \<open>Facts about the outbound pump\<close>

text \<open>
  A run of messages whose publishes are all acknowledged: each is taken, published and
  acknowledged in turn, and the loop goes on with the rest of the stream.
\<close>

lemma writer_loop_acknowledged:
  "(\<forall>i<length ps. publish (k + i) (dump (ps ! i)) = Completion None) \<Longrightarrow>
   writer_loop dump publish fin k (ps @ rest) =
     (case writer_loop dump publish fin (k + length ps) rest of
        (evs, out) \<Rightarrow>
          (concat (map (\<lambda>m. [Took m, Published (dump m), Acknowledged]) ps) @ evs, out))"
proof (induction ps arbitrary: k)
  case Nil
  then show ?case by (simp split: prod.splits)
next
  case (Cons p ps)
  have p0: "publish k (dump p) = Completion None"
    using Cons.prems [rule_format, of 0] by simp
  have "\<forall>i<length ps. publish (Suc k + i) (dump (ps ! i)) = Completion None"
  proof (intro allI impI)
    fix i assume "i < length ps"
    then have "Suc i < length (p # ps)" by simp
    then have "publish (k + Suc i) (dump ((p # ps) ! Suc i)) = Completion None"
      using Cons.prems by blast
    then show "publish (Suc k + i) (dump (ps ! i)) = Completion None" by simp
  qed
  then have IH: "writer_loop dump publish fin (Suc k) (ps @ rest) =
     (case writer_loop dump publish fin (Suc k + length ps) rest of
        (evs, out) \<Rightarrow>
          (concat (map (\<lambda>m. [Took m, Published (dump m), Acknowledged]) ps) @ evs, out))"
    by (rule Cons.IH)
  show ?case using p0 IH by (simp split: prod.splits)
qed

lemma published_append: "published (xs @ ys) = published xs @ published ys"
  by (induction xs rule: published.induct) auto

lemma published_acknowledged:
  "published (concat (map (\<lambda>m. [Took m, Published (dump m), Acknowledged]) ms)) = map dump ms"
  by (induction ms) auto

lemma published_on_send_exception: "published (fst (on_send_exception exc)) = []"
  by (cases exc) auto

lemma on_send_exception_raises: "snd (on_send_exception exc) = Raises (Propagated exc)"
  by (cases exc) auto

text \<open>
  Whatever the session answers, the payloads published are the serialized forms of an
  initial segment of the submitted messages, in their order.
\<close>

lemma writer_loop_published_prefix:
  "\<exists>n\<le>length ms. published (fst (writer_loop dump publish fin k ms)) = map dump (take n ms)"
proof (induction ms arbitrary: k)
  case Nil
  then show ?case by simp
next
  case (Cons m ms)
  show ?case
  proof (cases "publish k (dump m) = Completion None")
    case True
    obtain n where n: "n \<le> length ms"
      "published (fst (writer_loop dump publish fin (Suc k) ms)) = map dump (take n ms)"
      using Cons.IH [of "Suc k"] by blast
    have "published (fst (writer_loop dump publish fin k (m # ms))) = map dump (take (Suc n) (m # ms))"
      using True n(2) by (cases "writer_loop dump publish fin (Suc k) ms") simp
    moreover have "Suc n \<le> length (m # ms)" using n(1) by simp
    ultimately show ?thesis by blast
  next
    case False
    then obtain exc where "publish k (dump m) = Call_raises exc \<or> publish k (dump m) = Completion (Some exc)"
      by (cases "publish k (dump m)") auto
    then have "published (fst (writer_loop dump publish fin k (m # ms))) = map dump (take 1 (m # ms))"
      using published_on_send_exception [where exc = exc and 'a = 'a]
      by (cases "on_send_exception exc :: 'a writer_event list \<times> outcome") auto
    moreover have "(1::nat) \<le> length (m # ms)" by simp
    ultimately show ?thesis by blast
  qed
qed

lemma slim_writer_published:
  "published (fst (slim_writer dump publish fin ms)) =
   published (fst (writer_loop dump publish fin 0 ms))"
  by (simp add: slim_writer_def published_append split: prod.splits)

section \<open>Outbound order\<close>

text \<open>
  C3. For every sequence of \<open>N\<close> messages submitted to the outbound stream, the
  payloads the pump publishes are the serialized forms of an initial segment of the
  sequence, in submission order, whatever the session answers. Over a session that
  acknowledges each publish the pump takes the first message, publishes its serialized
  form, has the completion acknowledged, and only then takes the next one; so there are
  exactly \<open>N\<close> publishes, one per message, in submission order. When the producer
  has closed the stream the pump then closes its end and returns; while the stream is
  open it waits for the next message.
\<close>

theorem writer_publishes_in_order:
  "(\<exists>n\<le>length ms. published (fst (slim_writer dump publish fin ms)) = map dump (take n ms))
   \<and> ((\<forall>i<length ms. publish i (dump (ms ! i)) = Completion None) \<longrightarrow>
        slim_writer dump publish fin ms =
           (concat (map (\<lambda>m. [Took m, Published (dump m), Acknowledged]) ms) @
              (case fin of End_of_stream \<Rightarrow> [Reader_aclosed] | Still_open \<Rightarrow> []),
            case fin of End_of_stream \<Rightarrow> Returned | Still_open \<Rightarrow> Suspended)
        \<and> published (fst (slim_writer dump publish fin ms)) = map dump ms
        \<and> length (published (fst (slim_writer dump publish fin ms))) = length ms)"
proof -
  have prefix: "\<exists>n\<le>length ms.
      published (fst (slim_writer dump publish fin ms)) = map dump (take n ms)"
    using writer_loop_published_prefix [of ms dump publish fin 0]
    by (simp add: slim_writer_published)
  have acked: "slim_writer dump publish fin ms =
           (concat (map (\<lambda>m. [Took m, Published (dump m), Acknowledged]) ms) @
              (case fin of End_of_stream \<Rightarrow> [Reader_aclosed] | Still_open \<Rightarrow> []),
            case fin of End_of_stream \<Rightarrow> Returned | Still_open \<Rightarrow> Suspended)
        \<and> published (fst (slim_writer dump publish fin ms)) = map dump ms
        \<and> length (published (fst (slim_writer dump publish fin ms))) = length ms"
    if assms: "\<forall>i<length ms. publish i (dump (ms ! i)) = Completion None"
  proof -
    have "\<forall>i<length ms. publish (0 + i) (dump (ms ! i)) = Completion None"
      using assms by simp
    from writer_loop_acknowledged [OF this, of fin "[]"]
    have lp: "writer_loop dump publish fin 0 ms =
        (concat (map (\<lambda>m. [Took m, Published (dump m), Acknowledged]) ms),
         case fin of End_of_stream \<Rightarrow> Returned | Still_open \<Rightarrow> Suspended)"
      by simp
    have run: "slim_writer dump publish fin ms =
             (concat (map (\<lambda>m. [Took m, Published (dump m), Acknowledged]) ms) @
                (case fin of End_of_stream \<Rightarrow> [Reader_aclosed] | Still_open \<Rightarrow> []),
              case fin of End_of_stream \<Rightarrow> Returned | Still_open \<Rightarrow> Suspended)"
      using lp by (cases fin) (simp_all add: slim_writer_def)
    have pub: "published (fst (slim_writer dump publish fin ms)) = map dump ms"
      using run by (cases fin) (simp_all add: published_append published_acknowledged)
    show ?thesis using run pub by simp
  qed
  show ?thesis using prefix acked by blast
qed

theorem writer_publishes_in_order_witness:
  "acknowledging_session 0 (example_dump ''a'') = Completion None
   \<and> acknowledging_session 1 (example_dump ''b'') = Completion None
   \<and> acknowledging_session 2 (example_dump ''c'') = Completion None
   \<and> slim_writer example_dump acknowledging_session End_of_stream [''a'', ''b'', ''c''] =
       ([Took ''a'', Published ''{a}'', Acknowledged,
         Took ''b'', Published ''{b}'', Acknowledged,
         Took ''c'', Published ''{c}'', Acknowledged, Reader_aclosed], Returned)
   \<and> published (fst (slim_writer example_dump acknowledging_session End_of_stream
        [''a'', ''b'', ''c''])) = [''{a}'', ''{b}'', ''{c}'']"
proof -
  have h: "\<forall>i<length [''a'', ''b'', ''c''].
      acknowledging_session i (example_dump ([''a'', ''b'', ''c''] ! i)) = Completion None"
    by (simp add: acknowledging_session_def)
  from writer_publishes_in_order
    [where ms = "[''a'', ''b'', ''c'']" and publish = acknowledging_session
       and dump = example_dump and fin = End_of_stream]
  have run: "slim_writer example_dump acknowledging_session End_of_stream [''a'', ''b'', ''c''] =
       ([Took ''a'', Published ''{a}'', Acknowledged,
         Took ''b'', Published ''{b}'', Acknowledged,
         Took ''c'', Published ''{c}'', Acknowledged, Reader_aclosed], Returned)"
    and pub: "published (fst (slim_writer example_dump acknowledging_session End_of_stream
        [''a'', ''b'', ''c''])) = [''{a}'', ''{b}'', ''{c}'']"
    using h by (simp_all add: example_dump_def)
  have hs: "acknowledging_session 0 (example_dump ''a'') = Completion None"
    "acknowledging_session 1 (example_dump ''b'') = Completion None"
    "acknowledging_session 2 (example_dump ''c'') = Completion None"
    by (simp_all add: acknowledging_session_def)
  show ?thesis using run pub hs by blast
qed

section \<open>Send failure\<close>

text \<open>
  C4. Let the publish of the message at position \<open>n\<close> be the first that fails: the
  call raises, or the wait on its completion raises. Then the pump leaves by raising
  that very exception (after logging it when it is an \<open>Exception\<close>), having closed
  its end of the outbound stream; the publishes it made are those of the messages up to
  position \<open>n\<close> and no later message is published, whatever the stream still holds.
  The bridge's \<open>except* TerminateTaskGroup\<close> clause does not handle the exception,
  so it goes on to the caller of the bridge.
\<close>

theorem send_failure_stops_and_propagates:
  assumes "n < length ms"
      and "\<forall>i<n. publish i (dump (ms ! i)) = Completion None"
      and "publish n (dump (ms ! n)) = Call_raises exc
           \<or> publish n (dump (ms ! n)) = Completion (Some exc)"
  shows "snd (slim_writer dump publish fin ms) = Raises (Propagated exc)
       \<and> fst (slim_writer dump publish fin ms) =
           concat (map (\<lambda>m. [Took m, Published (dump m), Acknowledged]) (take n ms)) @
           [Took (ms ! n), Published (dump (ms ! n))] @ fst (on_send_exception exc) @
           [Reader_aclosed]
       \<and> published (fst (slim_writer dump publish fin ms)) = map dump (take (Suc n) ms)
       \<and> except_star_TerminateTaskGroup [Propagated exc] = [Propagated exc]"
proof -
  let ?ps = "take n ms"
  let ?rest = "ms ! n # drop (Suc n) ms"
  have joined: "?ps @ ?rest = ms" by (rule id_take_nth_drop [OF assms(1), symmetric])
  have len: "0 + length ?ps = n" using assms(1) by simp
  have "\<forall>i<length ?ps. publish (0 + i) (dump (?ps ! i)) = Completion None"
    using assms(2) by simp
  note pre = writer_loop_acknowledged [OF this, of fin ?rest]
  obtain evs :: "'a writer_event list"
    where oe: "on_send_exception exc = (evs, Raises (Propagated exc))"
    using on_send_exception_raises [of exc] by (metis prod.collapse)
  have fail: "writer_loop dump publish fin n ?rest =
      (Took (ms ! n) # Published (dump (ms ! n)) # evs, Raises (Propagated exc))"
    using assms(3) oe by auto
  have lp: "writer_loop dump publish fin 0 ms =
      (concat (map (\<lambda>m. [Took m, Published (dump m), Acknowledged]) ?ps) @
         Took (ms ! n) # Published (dump (ms ! n)) # evs, Raises (Propagated exc))"
    using pre [unfolded joined len fail] by simp
  have run: "slim_writer dump publish fin ms =
      (concat (map (\<lambda>m. [Took m, Published (dump m), Acknowledged]) ?ps) @
         [Took (ms ! n), Published (dump (ms ! n))] @ evs @ [Reader_aclosed],
       Raises (Propagated exc))"
    by (simp add: slim_writer_def lp)
  have evs: "fst (on_send_exception exc) = evs" using oe by simp
  have pe: "published evs = []"
    using published_on_send_exception [where exc = exc and 'a = 'a] evs by simp
  have tk: "map dump (take (Suc n) ms) = map dump ?ps @ [dump (ms ! n)]"
    using assms(1) by (simp add: take_Suc_conv_app_nth)
  have pub: "published (fst (slim_writer dump publish fin ms)) = map dump (take (Suc n) ms)"
    by (simp add: run published_append published_acknowledged pe tk)
  show ?thesis
    using run evs pub by (simp add: except_star_TerminateTaskGroup_def)
qed

theorem send_failure_stops_and_propagates_witness:
  "(1::nat) < length [''a'', ''b'', ''c'']
   \<and> failing_session 0 (example_dump ([''a'', ''b'', ''c''] ! 0)) = Completion None
   \<and> failing_session 1 (example_dump ([''a'', ''b'', ''c''] ! 1)) =
        Call_raises (Exception ''publish failed'')
   \<and> slim_writer example_dump failing_session End_of_stream [''a'', ''b'', ''c''] =
       ([Took ''a'', Published ''{a}'', Acknowledged,
         Took ''b'', Published ''{b}'', Logged_send_error, Reader_aclosed],
        Raises (Propagated (Exception ''publish failed'')))
   \<and> published (fst (slim_writer example_dump failing_session End_of_stream
        [''a'', ''b'', ''c''])) = [''{a}'', ''{b}'']"
proof -
  have h1: "(1::nat) < length [''a'', ''b'', ''c'']" by simp
  have h2: "\<forall>i<1. failing_session i (example_dump ([''a'', ''b'', ''c''] ! i)) = Completion None"
    by (simp add: failing_session_def)
  have h3: "failing_session 1 (example_dump ([''a'', ''b'', ''c''] ! 1)) =
        Call_raises (Exception ''publish failed'')"
    by (simp add: failing_session_def)
  have h3': "failing_session 1 (example_dump ([''a'', ''b'', ''c''] ! 1)) =
        Call_raises (Exception ''publish failed'')
      \<or> failing_session 1 (example_dump ([''a'', ''b'', ''c''] ! 1)) =
        Completion (Some (Exception ''publish failed''))"
    using h3 by simp
  from send_failure_stops_and_propagates
    [where n = 1 and ms = "[''a'', ''b'', ''c'']" and publish = failing_session
       and dump = example_dump and exc = "Exception ''publish failed''" and fin = End_of_stream]
  have r: "snd (slim_writer example_dump failing_session End_of_stream [''a'', ''b'', ''c'']) =
             Raises (Propagated (Exception ''publish failed''))"
    and e: "fst (slim_writer example_dump failing_session End_of_stream [''a'', ''b'', ''c'']) =
       [Took ''a'', Published ''{a}'', Acknowledged,
         Took ''b'', Published ''{b}'', Logged_send_error, Reader_aclosed]"
    and p: "published (fst (slim_writer example_dump failing_session End_of_stream
        [''a'', ''b'', ''c''])) = [''{a}'', ''{b}'']"
    using h1 h2 h3' by (simp_all add: example_dump_def)
  have "slim_writer example_dump failing_session End_of_stream [''a'', ''b'', ''c''] =
       ([Took ''a'', Published ''{a}'', Acknowledged,
         Took ''b'', Published ''{b}'', Logged_send_error, Reader_aclosed],
        Raises (Propagated (Exception ''publish failed'')))"
    using r e by (simp add: prod_eq_iff)
  moreover have "failing_session 0 (example_dump ([''a'', ''b'', ''c''] ! 0)) = Completion None"
    by (simp add: failing_session_def)
  ultimately show ?thesis using h1 h3 p by blast
qed

section \<open>The session scope\<close>

text \<open>
  C7. The session is yielded only after \<open>create_session_async\<close> has returned and
  the wait on the establishment completion has returned: when either raises there is no
  \<open>Yielded\<close> event. Once the session has been yielded, and whether the body returned
  or raised, \<open>delete_session_async\<close> is called on that session and the wait on the
  completion it returns is made; with the deletion acknowledged the scope ends as the
  body did (returning, or raising the body's exception).
\<close>

theorem session_scope_establishes_and_deletes:
  "(create_session_async = Inr (session, None) \<longrightarrow>
      fst (create_slim_session create_session_async body delete_session_async) =
        [Create_session_called, Establishment_awaited, Yielded session,
         Delete_session_called session] @
        (case delete_session_async session of
           Call_raises exc \<Rightarrow> []
         | Completion acknowledgment \<Rightarrow> [Deletion_awaited])
      \<and> (delete_session_async session = Completion None \<longrightarrow>
           create_slim_session create_session_async body delete_session_async =
             ([Create_session_called, Establishment_awaited, Yielded session,
               Delete_session_called session, Deletion_awaited],
              case body session of None \<Rightarrow> Returned | Some exc \<Rightarrow> Raises (Propagated exc))))
   \<and> (create_session_async = Inl exc \<longrightarrow>
        create_slim_session create_session_async body delete_session_async =
          ([Create_session_called], Raises (Propagated exc)))
   \<and> (create_session_async = Inr (session, Some exc) \<longrightarrow>
        create_slim_session create_session_async body delete_session_async =
          ([Create_session_called, Establishment_awaited], Raises (Propagated exc)))
   \<and> (Yielded s \<in> set (fst (create_slim_session create_session_async body delete_session_async)) \<longrightarrow>
        create_session_async = Inr (s, None) \<and>
        take 3 (fst (create_slim_session create_session_async body delete_session_async)) =
          [Create_session_called, Establishment_awaited, Yielded s] \<and>
        Delete_session_called s \<in>
          set (fst (create_slim_session create_session_async body delete_session_async)))"
  by (auto simp: create_slim_session_def split: sum.splits option.splits completion_call.splits)

theorem session_scope_establishes_and_deletes_witness:
  "create_slim_session (Inr (7, None)) raising_body acknowledged_deletion =
     ([Create_session_called, Establishment_awaited, Yielded 7,
       Delete_session_called 7, Deletion_awaited],
      Raises (Propagated (Exception ''tool call failed'')))
   \<and> Yielded 7 \<in> set (fst (create_slim_session (Inr (7, None)) raising_body acknowledged_deletion))
   \<and> Delete_session_called 7 \<in>
        set (fst (create_slim_session (Inr (7, None)) raising_body acknowledged_deletion))"
proof -
  have d: "acknowledged_deletion 7 = Completion None"
    by (simp add: acknowledged_deletion_def)
  have b: "raising_body 7 = Some (Exception ''tool call failed'')"
    by (simp add: raising_body_def)
  from session_scope_establishes_and_deletes
    [where create_session_async = "Inr (7, None)" and session = 7 and body = raising_body
       and delete_session_async = acknowledged_deletion and s = 7]
  have run: "create_slim_session (Inr (7, None)) raising_body acknowledged_deletion =
     ([Create_session_called, Establishment_awaited, Yielded 7,
       Delete_session_called 7, Deletion_awaited],
      Raises (Propagated (Exception ''tool call failed'')))"
    using d b by simp
  then show ?thesis by simp
qed

section \<open>Connecting the service\<close>

text \<open>
  C9. With a client config given: when \<open>connect_async\<close> raises an \<open>Exception\<close>
  whose text contains \<open>client already connected\<close>, \<open>create_local_app\<close> goes on
  exactly as it does without a config, that is, it creates the app and returns it with
  the connection id \<open>None\<close> (no subscription is made); the connect exception is not
  raised. Every other exception of \<open>connect_async\<close> leaves \<open>create_local_app\<close>
  unchanged.
\<close>

theorem already_connected_is_ignored:
  assumes "slim_client_config = Some config"
  shows "(connect_async config = Inl (Exception reason) \<and>
            str_contains ''client already connected'' reason \<longrightarrow>
            create_local_app slim_client_config connect_async create_app_with_secret subscribe_async =
              (case create_app_with_secret of
                 Inl exc \<Rightarrow> Inl exc
               | Inr local_app \<Rightarrow> Inr (local_app, None))
            \<and> create_local_app slim_client_config connect_async create_app_with_secret subscribe_async =
                create_local_app None connect_async create_app_with_secret subscribe_async)
       \<and> (connect_async config = Inl (Exception reason) \<and>
            \<not> str_contains ''client already connected'' reason \<longrightarrow>
            create_local_app slim_client_config connect_async create_app_with_secret subscribe_async =
              Inl (Exception reason))
       \<and> (connect_async config = Inl CancelledError \<longrightarrow>
            create_local_app slim_client_config connect_async create_app_with_secret subscribe_async =
              Inl CancelledError)"
  using assms by (auto simp: create_local_app_def split: sum.splits)

theorem already_connected_is_ignored_witness:
  "already_connected () = Inl (Exception ''connection error: client already connected'')
   \<and> str_contains ''client already connected'' ''connection error: client already connected''
   \<and> create_local_app (Some ()) already_connected (Inr ''app'') subscribing = Inr (''app'', None)"
proof -
  have h1: "already_connected () = Inl (Exception ''connection error: client already connected'')"
    by (simp add: already_connected_def)
  have h2: "str_contains ''client already connected'' ''connection error: client already connected''"
    by simp
  have h0: "Some () = Some ()" by simp
  from already_connected_is_ignored
    [where slim_client_config = "Some ()" and config = "()" and connect_async = already_connected
       and reason = "''connection error: client already connected''"
       and create_app_with_secret = "Inr ''app''" and subscribe_async = subscribing, OF h0]
  have "create_local_app (Some ()) already_connected (Inr ''app'') subscribing = Inr (''app'', None)"
    using h1 h2 by simp
  then show ?thesis using h1 h2 by simp
qed

section \<open>The accept loop\<close>

lemma accept_loop_listening:
  "Listen_raises CancelledError \<notin> set accepts \<Longrightarrow>
   accept_loop accepts =
     (concat (map (\<lambda>a. case a of
                 Session s \<Rightarrow> [Logged_new_session s, Task_created s]
               | Listen_raises exc \<Rightarrow>
                   (case exc of Exception reason \<Rightarrow> [Logged_accept_error reason]
                    | CancelledError \<Rightarrow> [])) accepts),
      Suspended)"
  by (induction accepts rule: accept_loop.induct) auto

lemma spawned_append: "spawned (xs @ ys) = spawned xs @ spawned ys"
  by (induction xs rule: spawned.induct) auto

lemma spawned_accept_events:
  "spawned (concat (map (\<lambda>a. case a of
                 Session s \<Rightarrow> [Logged_new_session s, Task_created s]
               | Listen_raises exc \<Rightarrow>
                   (case exc of Exception reason \<Rightarrow> [Logged_accept_error reason]
                    | CancelledError \<Rightarrow> [])) accepts)) =
   concat (map (\<lambda>a. case a of Session s \<Rightarrow> [s] | Listen_raises exc \<Rightarrow> []) accepts)"
  by (induction accepts) (auto simp: spawned_append split: accept_result.splits py_exc.splits)

lemma accept_loop_outcome:
  "snd (accept_loop accepts) = Suspended \<or>
   (snd (accept_loop accepts) = Raises (Propagated CancelledError) \<and>
    Listen_raises CancelledError \<in> set accepts)"
  by (induction accepts rule: accept_loop.induct) (auto split: prod.splits)

text \<open>
  C6. Over any run of answers of \<open>listen_for_session_async\<close> none of which is a
  cancellation: every accepted session is logged and gets its own task, every
  \<open>Exception\<close> of the listen call is logged and the loop goes on with the next
  answer, and at the end the loop is still parked in \<open>listen_for_session_async\<close>,
  whatever the per-session handlers did. A task whose handler run raises an
  \<open>Exception\<close> logs it and returns, so nothing is raised out of the task. For every
  run of answers, the loop has not returned, and it has been left only if the listen
  call was cancelled.
\<close>

theorem accept_loop_isolates_failures:
  "(Listen_raises CancelledError \<notin> set accepts \<longrightarrow>
      run_mcp_server accepts body =
        (concat (map (\<lambda>a. case a of
                    Session s \<Rightarrow> [Logged_new_session s, Task_created s]
                  | Listen_raises exc \<Rightarrow>
                      (case exc of Exception reason \<Rightarrow> [Logged_accept_error reason]
                       | CancelledError \<Rightarrow> [])) accepts),
         map (\<lambda>s. handle_session (body s))
           (concat (map (\<lambda>a. case a of Session s \<Rightarrow> [s] | Listen_raises exc \<Rightarrow> []) accepts)),
         Suspended))
   \<and> (body session = Raises (Propagated (Exception reason)) \<longrightarrow>
        handle_session (body session) = ([Logged_session_error reason], Returned))
   \<and> snd (snd (run_mcp_server accepts body)) \<noteq> Returned
   \<and> (snd (snd (run_mcp_server accepts body)) \<noteq> Suspended \<longrightarrow>
        snd (snd (run_mcp_server accepts body)) = Raises (Propagated CancelledError) \<and>
        Listen_raises CancelledError \<in> set accepts)"
proof -
  have out: "snd (snd (run_mcp_server accepts body)) = snd (accept_loop accepts)"
    by (simp add: run_mcp_server_def split: prod.splits)
  have 1: "Listen_raises CancelledError \<notin> set accepts \<longrightarrow>
      run_mcp_server accepts body =
        (concat (map (\<lambda>a. case a of
                    Session s \<Rightarrow> [Logged_new_session s, Task_created s]
                  | Listen_raises exc \<Rightarrow>
                      (case exc of Exception reason \<Rightarrow> [Logged_accept_error reason]
                       | CancelledError \<Rightarrow> [])) accepts),
         map (\<lambda>s. handle_session (body s))
           (concat (map (\<lambda>a. case a of Session s \<Rightarrow> [s] | Listen_raises exc \<Rightarrow> []) accepts)),
         Suspended)"
    by (simp add: run_mcp_server_def accept_loop_listening spawned_accept_events)
  have 2: "body session = Raises (Propagated (Exception reason)) \<longrightarrow>
        handle_session (body session) = ([Logged_session_error reason], Returned)"
    by simp
  have 3: "snd (snd (run_mcp_server accepts body)) \<noteq> Returned"
    using accept_loop_outcome [of accepts] out by auto
  have 4: "snd (snd (run_mcp_server accepts body)) \<noteq> Suspended \<longrightarrow>
        snd (snd (run_mcp_server accepts body)) = Raises (Propagated CancelledError) \<and>
        Listen_raises CancelledError \<in> set accepts"
    using accept_loop_outcome [of accepts] out by auto
  show ?thesis using 1 2 3 4 by blast
qed

text \<open>
  Six sessions are accepted with one failed accept in between; the handler of session 3
  raises. All six tasks are created, the task of session 3 logs and returns, and the
  loop is listening for the next session.
\<close>

theorem accept_loop_isolates_failures_witness:
  "Listen_raises CancelledError \<notin>
     set [Session 1, Session 2, Session 3, Listen_raises (Exception ''transport error''),
          Session 4, Session 5, Session (6::nat)]
   \<and> example_body 3 = Raises (Propagated (Exception ''handler crashed''))
   \<and> run_mcp_server
        [Session 1, Session 2, Session 3, Listen_raises (Exception ''transport error''),
         Session 4, Session 5, Session 6] example_body =
      ([Logged_new_session 1, Task_created 1, Logged_new_session 2, Task_created 2,
        Logged_new_session 3, Task_created 3, Logged_accept_error ''transport error'',
        Logged_new_session 4, Task_created 4, Logged_new_session 5, Task_created 5,
        Logged_new_session 6, Task_created 6],
       [([], Returned), ([], Returned), ([Logged_session_error ''handler crashed''], Returned),
        ([], Returned), ([], Returned), ([], Returned)],
       Suspended)"
proof -
  have h1: "Listen_raises CancelledError \<notin>
     set [Session 1, Session 2, Session 3, Listen_raises (Exception ''transport error''),
          Session 4, Session 5, Session (6::nat)]"
    by simp
  have h2: "example_body 3 = Raises (Propagated (Exception ''handler crashed''))"
    by (simp add: example_body_def)
  from accept_loop_isolates_failures
    [where accepts = "[Session 1, Session 2, Session 3,
         Listen_raises (Exception ''transport error''), Session 4, Session 5, Session (6::nat)]"
       and body = example_body and session = 3 and reason = "''handler crashed''"]
  show ?thesis using h1 h2 by (simp add: example_body_def)
qed

end
